theory Spec2Isabelle
  imports Main
begin

section \<open>Go strings\<close>

text \<open>
  A Go \<open>string\<close> is a sequence of bytes; \<open>len\<close>, indexing and slicing count bytes.
  HOL's \<open>string\<close> is a list of 8-bit characters, so \<open>s[i:]\<close> is \<open>drop i s\<close> and
  \<open>s[:i]\<close> is \<open>take i s\<close>, where the source keeps \<open>i\<close> within \<open>0..len(s)\<close>; a slice
  out of that range panics in Go and is written out as a panic where it can happen.
\<close>

text \<open>\<open>strings.HasPrefix\<close>: \<open>len(s) >= len(prefix) && s[:len(prefix)] == prefix\<close>.\<close>

definition HasPrefix :: "string \<Rightarrow> string \<Rightarrow> bool" where
  "HasPrefix s prefix = (length prefix \<le> length s \<and> take (length prefix) s = prefix)"

text \<open>\<open>strings.HasSuffix\<close>: \<open>len(s) >= len(suffix) && s[len(s)-len(suffix):] == suffix\<close>.\<close>

definition HasSuffix :: "string \<Rightarrow> string \<Rightarrow> bool" where
  "HasSuffix s suffix = (length suffix \<le> length s \<and> drop (length s - length suffix) s = suffix)"

text \<open>\<open>strings.TrimSuffix\<close>: \<open>s\<close> without the given trailing suffix, \<open>s\<close> itself when it
  does not end in it.\<close>

definition TrimSuffix :: "string \<Rightarrow> string \<Rightarrow> string" where
  "TrimSuffix s suffix = (if HasSuffix s suffix then take (length s - length suffix) s else s)"

text \<open>\<open>strings.Index\<close>: the index of the first instance of \<open>substr\<close> in \<open>s\<close>, or \<open>-1\<close> when
  there is none.\<close>

fun Index :: "string \<Rightarrow> string \<Rightarrow> int" where
  "Index [] substr = (if substr = [] then 0 else - 1)"
| "Index (c # s) substr =
     (if HasPrefix (c # s) substr then 0
      else (let i = Index s substr in if i < 0 then - 1 else i + 1))"

text \<open>\<open>strings.Contains\<close>: \<open>Index(s, substr) >= 0\<close>.\<close>

definition Contains :: "string \<Rightarrow> string \<Rightarrow> bool" where
  "Contains s substr = (0 \<le> Index s substr)"

text \<open>
  \<open>strings.Split(s, sep)\<close> (\<open>genSplit\<close> with no limit): cut \<open>s\<close> at every instance of the
  separator, from left to right; the pieces do not contain it and there is always at
  least one piece. The repository only passes the one-byte separators \<open>"\n"\<close> and \<open>"/"\<close>,
  so the separator is a byte here.
\<close>

function Split :: "string \<Rightarrow> char \<Rightarrow> string list" where
  "Split s sep =
     (let m = Index s [sep]
      in if m < 0 then [s] else take (nat m) s # Split (drop (nat m + 1) s) sep)"
  by pat_completeness auto

lemma Index_upper: "0 \<le> Index s substr \<Longrightarrow> nat (Index s substr) + length substr \<le> length s"
  by (induction s) (auto simp: Let_def HasPrefix_def split: if_splits)

termination Split
proof (relation "measure (\<lambda>(s, sep). length s)")
  show "wf (measure (\<lambda>(s, sep). length s))" by simp
next
  fix s :: string and sep :: char and m :: int
  assume m: "m = Index s [sep]" and nn: "\<not> m < 0"
  from nn m have "nat (Index s [sep]) + length [sep] \<le> length s"
    by (intro Index_upper) simp
  with m show "((drop (nat m + 1) s, sep), (s, sep)) \<in> measure (\<lambda>(s, sep). length s)"
    by simp
qed

declare Split.simps [simp del]

text \<open>\<open>strings.Join\<close>: the elements with \<open>sep\<close> between them.\<close>

fun Join :: "string list \<Rightarrow> string \<Rightarrow> string" where
  "Join [] sep = []"
| "Join [a] sep = a"
| "Join (a # b # rest) sep = a @ sep @ Join (b # rest) sep"

text \<open>
  \<open>strings.Fields\<close>: the maximal runs of bytes between white space, none of them empty.
  White space is \<open>unicode.IsSpace\<close> on the runes of the UTF-8 text: the six ASCII
  characters tab, line feed, vertical tab, form feed, carriage return and space, and the
  code points U+0085, U+00A0, U+1680, U+2000..U+200A, U+2028, U+2029, U+202F, U+205F and
  U+3000. \<open>spaceWidth s\<close> is the number of bytes of the white-space rune that \<open>s\<close> starts
  with, and 0 when \<open>s\<close> does not start with one. A byte that starts one of these encodings
  is never a continuation byte, so the decoder of \<open>FieldsFunc\<close> always stands on a rune
  boundary there, and a rune that is not white space may be consumed byte by byte.
\<close>

definition asciiSpace :: "char \<Rightarrow> bool" where
  "asciiSpace c =
     (c = CHR 0x09 \<or> c = CHR 0x0A \<or> c = CHR 0x0B \<or> c = CHR 0x0C \<or> c = CHR 0x0D \<or> c = CHR 0x20)"

definition spaceWidth :: "string \<Rightarrow> nat" where
  "spaceWidth s =
     (case s of
        [] \<Rightarrow> 0
      | c # cs \<Rightarrow>
          if asciiSpace c then 1
          else if c = CHR 0xC2 \<and> (take 1 cs = [CHR 0x85] \<or> take 1 cs = [CHR 0xA0]) then 2
          else if c = CHR 0xE1 \<and> take 2 cs = [CHR 0x9A, CHR 0x80] then 3
          else if c = CHR 0xE2 \<and> take 1 cs = [CHR 0x80] \<and>
                  (case drop 1 cs of
                     [] \<Rightarrow> False
                   | d # _ \<Rightarrow>
                       of_char d \<in> {0x80 .. 0x8A :: nat} \<or> d = CHR 0xA8 \<or> d = CHR 0xA9 \<or>
                       d = CHR 0xAF)
               then 3
          else if c = CHR 0xE2 \<and> take 2 cs = [CHR 0x81, CHR 0x9F] then 3
          else if c = CHR 0xE3 \<and> take 2 cs = [CHR 0x80, CHR 0x80] then 3
          else 0)"

text \<open>The loop of \<open>FieldsFunc\<close>: \<open>cur\<close> is the field being read (\<open>None\<close>: between fields).\<close>

function FieldsLoop :: "string option \<Rightarrow> string \<Rightarrow> string list" where
  "FieldsLoop cur [] = (case cur of None \<Rightarrow> [] | Some f \<Rightarrow> [f])"
| "FieldsLoop cur (c # cs) =
     (if 0 < spaceWidth (c # cs)
      then (case cur of
              None \<Rightarrow> FieldsLoop None (drop (spaceWidth (c # cs) - 1) cs)
            | Some f \<Rightarrow> f # FieldsLoop None (drop (spaceWidth (c # cs) - 1) cs))
      else FieldsLoop (Some (case cur of None \<Rightarrow> [c] | Some f \<Rightarrow> f @ [c])) cs)"
  by pat_completeness auto
termination
  by (relation "measure (\<lambda>(cur, s). length s)") auto

definition Fields :: "string \<Rightarrow> string list" where
  "Fields s = FieldsLoop None s"


section \<open>Errors, panics and the outside world\<close>

text \<open>
  A Go \<open>error\<close> is \<open>error option\<close>, \<open>None\<close> for \<open>nil\<close>. The constructors are the ways
  the repository gets an error value: \<open>errors.New\<close> and \<open>errors.Wrap\<close> of
  \<open>github.com/pkg/errors\<close>, and the errors the operating system hands to \<open>os.Stat\<close> and
  \<open>os/exec\<close>, told apart by whether \<open>os.IsNotExist\<close> holds of them.
\<close>

datatype error =
    ErrNew string
  | ErrWrap error string
  | ErrNotExist string
  | ErrSys string

text \<open>\<open>errors.Wrap(err, msg)\<close> is \<open>nil\<close> when \<open>err\<close> is \<open>nil\<close>.\<close>

fun Wrap :: "error option \<Rightarrow> string \<Rightarrow> error option" where
  "Wrap None msg = None"
| "Wrap (Some e) msg = Some (ErrWrap e msg)"

fun IsNotExist :: "error option \<Rightarrow> bool" where
  "IsNotExist (Some (ErrNotExist p)) = True"
| "IsNotExist e = False"

text \<open>A call either returns its results or panics (a slice out of range).\<close>

datatype 'a outcome = Returns 'a | Panics

text \<open>\<open>exec.Cmd\<close>: the program, its arguments after the program's name, and the
  directory it runs in.\<close>

record Cmd =
  Path :: string
  Args :: "string list"
  Dir :: string

text \<open>
  The program reaches the file system and the external tool through three library calls,
  which are parameters of the model: \<open>os.Stat\<close> (only its error is ever read),
  \<open>(*exec.Cmd).CombinedOutput\<close>, which runs a command in the world \<open>'w\<close>, changes it and
  returns the combined output with an error, and \<open>path.Join\<close> of two elements.
\<close>

record 'w Env =
  os_Stat :: "string \<Rightarrow> 'w \<Rightarrow> error option"
  CombinedOutput :: "Cmd \<Rightarrow> 'w \<Rightarrow> (string \<times> error option) \<times> 'w"
  path_Join :: "string \<Rightarrow> string \<Rightarrow> string"

text \<open>
  \<open>cmd.ProcessState.Success()\<close>, at the only places the source reads it: to the right of
  \<open>err != nil ||\<close>, so after \<open>CombinedOutput\<close> returned a \<open>nil\<close> error. \<open>os/exec\<close> returns a
  \<open>nil\<close> error only for a process that ran and exited with status 0.
\<close>

definition ProcessState_Success :: "error option \<Rightarrow> bool" where
  "ProcessState_Success err = (err = None)"

section \<open>The data of \<open>git.go\<close>\<close>

text \<open>\<open>type Repo struct\<close>; the \<open>logger\<close> field and all logging are left out.\<close>

record Repo =
  URL :: string
  Name :: string
  WorkDir :: string
  RepoDir :: string

record GitOpts =
  Rebase :: bool
  CloneDir :: string

text \<open>\<open>type ModType int\<close> with its three constants (\<open>iota\<close>).\<close>

type_synonym ModType = int

definition StatNew :: ModType where
  "StatNew = 0"

definition StatModified :: ModType where
  "StatModified = 1"

definition StatDeleted :: ModType where
  "StatDeleted = 2"

record DiffStat =
  Stat :: ModType
  Filename :: string

type_synonym SetOptFunc = "GitOpts \<Rightarrow> GitOpts"

definition SetOptRebase :: SetOptFunc where
  "SetOptRebase = (\<lambda>opts. opts\<lparr>Rebase := True\<rparr>)"

definition SetCloneDir :: "string \<Rightarrow> SetOptFunc" where
  "SetCloneDir s = (\<lambda>opts. opts\<lparr>CloneDir := s\<rparr>)"

definition getOpts :: "SetOptFunc list \<Rightarrow> GitOpts" where
  "getOpts optSetters = foldl (\<lambda>opts optSetter. optSetter opts) \<lparr>Rebase = False, CloneDir = []\<rparr> optSetters"

text \<open>
  The methods have the receiver \<open>r *Repo\<close>: the state holds the struct \<open>r\<close> points to, next
  to the world outside. \<open>issued\<close> records every command handed to \<open>CombinedOutput\<close>, in
  order; the program never reads it.
\<close>

record 'w state =
  repo :: Repo
  issued :: "Cmd list"
  world :: 'w

definition run :: "'w Env \<Rightarrow> Cmd \<Rightarrow> 'w state \<Rightarrow> (string \<times> error option) \<times> 'w state" where
  "run E cmd s =
     (case CombinedOutput E cmd (world s) of
        (res, w') \<Rightarrow> (res, s\<lparr>issued := issued s @ [cmd], world := w'\<rparr>))"

section \<open>The operations of \<open>git.go\<close>\<close>

text \<open>\<open>cmd := exec.Command("git", args...)\<close> followed by \<open>cmd.Dir = dir\<close>.\<close>

definition gitCommand :: "string list \<Rightarrow> string \<Rightarrow> Cmd" where
  "gitCommand args dir = \<lparr>Path = ''git'', Args = args, Dir = dir\<rparr>"

text \<open>\<open>doGit\<close>. The result of its \<open>os.Stat(r.WorkDir)\<close> is overwritten before it is read.\<close>

definition doGit :: "'w Env \<Rightarrow> string list \<Rightarrow> 'w state \<Rightarrow> (string \<times> error option) \<times> 'w state" where
  "doGit E args s =
     (case run E (gitCommand args (RepoDir (repo s))) s of
        ((out, err), s') \<Rightarrow>
          if err \<noteq> None \<or> \<not> ProcessState_Success err
          then (([], Wrap err (''failed to run command '' @ [CHR 0x27] @ ''git '' @ Join args '' '' @
                   [CHR 0x27] @ '' on repo '' @ Name (repo s') @ '': '' @ out)), s')
          else ((out, None), s'))"

definition Clone :: "'w Env \<Rightarrow> 'w state \<Rightarrow> error option \<times> 'w state" where
  "Clone E s =
     (case os_Stat E (WorkDir (repo s)) (world s) of
        Some err \<Rightarrow>
          if IsNotExist (Some err) then (Some (ErrNew ''parent dir does not exist''), s)
          else (Wrap (Some err) ''failed to stat parent dir'', s)
      | None \<Rightarrow>
          (case run E (gitCommand [''clone'', URL (repo s), RepoDir (repo s)] (WorkDir (repo s))) s of
             ((out, err), s') \<Rightarrow>
               if err \<noteq> None \<or> \<not> ProcessState_Success err
               then (Wrap err (''failed to clone repo: '' @ out), s')
               else (case doGit E [''remote'', ''set-url'', ''origin'', URL (repo s')] s' of
                       ((out', err'), s'') \<Rightarrow> (err', s''))))"

definition Pull :: "'w Env \<Rightarrow> SetOptFunc list \<Rightarrow> 'w state \<Rightarrow> error option \<times> 'w state" where
  "Pull E options s =
     (let opts = getOpts options;
          cmd = [''pull''];
          cmd' = (if Rebase opts then cmd @ [''--rebase''] else cmd)
      in case doGit E cmd' s of ((out, err), s') \<Rightarrow> (err, s'))"

definition IsClean :: "'w Env \<Rightarrow> 'w state \<Rightarrow> bool \<times> 'w state" where
  "IsClean E s =
     (case doGit E [''fetch''] s of
        ((out0, Some err), s1) \<Rightarrow> (False, s1)
      | ((out0, None), s1) \<Rightarrow>
          (case doGit E [''status''] s1 of
             ((out, Some err), s2) \<Rightarrow> (False, s2)
           | ((out, None), s2) \<Rightarrow>
               if Contains out ''up-to-date'' \<and> Contains out ''working directory clean''
               then (True, s2)
               else (False, s2)))"

definition CloneOrPull :: "'w Env \<Rightarrow> 'w state \<Rightarrow> error option \<times> 'w state" where
  "CloneOrPull E s =
     (if IsNotExist (os_Stat E (path_Join E (RepoDir (repo s)) ''.git'') (world s))
      then Clone E s
      else (case IsClean E s of
              (clean, s') \<Rightarrow> if \<not> clean then Pull E [SetOptRebase] s' else (None, s')))"

definition Commit :: "'w Env \<Rightarrow> string \<Rightarrow> 'w state \<Rightarrow> error option \<times> 'w state" where
  "Commit E msg s = (case doGit E [''commit'', ''-m'', msg] s of ((out, err), s') \<Rightarrow> (err, s'))"

definition Push :: "'w Env \<Rightarrow> 'w state \<Rightarrow> error option \<times> 'w state" where
  "Push E s = (case doGit E [''push''] s of ((out, err), s') \<Rightarrow> (err, s'))"

definition Add :: "'w Env \<Rightarrow> string \<Rightarrow> 'w state \<Rightarrow> error option \<times> 'w state" where
  "Add E pattern s = (case doGit E [''add'', pattern] s of ((out, err), s') \<Rightarrow> (err, s'))"

definition AddCommitPush :: "'w Env \<Rightarrow> string \<Rightarrow> 'w state \<Rightarrow> error option \<times> 'w state" where
  "AddCommitPush E msg s =
     (case Add E ''.'' s of
        (Some err, s1) \<Rightarrow> (Some err, s1)
      | (None, s1) \<Rightarrow>
          (case Commit E msg s1 of
             (Some err, s2) \<Rightarrow> (Some err, s2)
           | (None, s2) \<Rightarrow> Push E s2))"

definition Checkout :: "'w Env \<Rightarrow> string \<Rightarrow> 'w state \<Rightarrow> error option \<times> 'w state" where
  "Checkout E b s = (case doGit E [''checkout'', b] s of ((out, err), s') \<Rightarrow> (err, s'))"

text \<open>The loop of \<open>Branch\<close> over the lines. \<open>line[2:]\<close> panics when \<open>len(line) < 2\<close>.\<close>

fun Branch_lines :: "string list \<Rightarrow> (string \<times> error option) outcome" where
  "Branch_lines [] = Returns ([], Some (ErrNew ''unexpected output from git command''))"
| "Branch_lines (line # lines) =
     (if HasPrefix line ''*''
      then (if 2 \<le> length line then Returns (drop 2 line, None) else Panics)
      else Branch_lines lines)"

definition Branch :: "'w Env \<Rightarrow> 'w state \<Rightarrow> (string \<times> error option) outcome \<times> 'w state" where
  "Branch E s =
     (case doGit E [''branch''] s of
        ((out, Some err), s') \<Rightarrow> (Returns ([], Wrap (Some err) ''failed to get branche info''), s')
      | ((out, None), s') \<Rightarrow> (Branch_lines (Split out (CHR 0x0A)), s'))"

definition CurrentCommit :: "'w Env \<Rightarrow> 'w state \<Rightarrow> (string \<times> error option) \<times> 'w state" where
  "CurrentCommit E s =
     (case doGit E [''rev-parse'', ''HEAD''] s of
        ((out, Some err), s') \<Rightarrow> (([], Some err), s')
      | ((out, None), s') \<Rightarrow> ((TrimSuffix out [CHR 0x0A], None), s'))"

definition statMap :: "string \<Rightarrow> ModType option" where
  "statMap = [''A'' \<mapsto> StatNew, ''M'' \<mapsto> StatModified, ''D'' \<mapsto> StatDeleted]"

text \<open>One turn of the loop of \<open>DiffStatus\<close>: \<open>diffs\<close> before the line, and after it.\<close>

definition DiffStatus_line :: "DiffStat list \<Rightarrow> string \<Rightarrow> DiffStat list" where
  "DiffStatus_line diffs line =
     (let fields = Fields line
      in if length fields = 2
         then (case statMap (fields ! 0) of
                 None \<Rightarrow> diffs
               | Some st \<Rightarrow> diffs @ [\<lparr>Stat = st, Filename = fields ! 1\<rparr>])
         else diffs)"

definition DiffStatus :: "'w Env \<Rightarrow> string \<Rightarrow> string \<Rightarrow> 'w state \<Rightarrow> (DiffStat list \<times> error option) \<times> 'w state" where
  "DiffStatus E c1 c2 s =
     (case doGit E [''diff'', ''--name-status'', c1, c2] s of
        ((out, Some err), s') \<Rightarrow> (([], Some err), s')
      | ((out, None), s') \<Rightarrow> ((foldl DiffStatus_line [] (Split out (CHR 0x0A)), None), s'))"

definition ShowForCommit :: "'w Env \<Rightarrow> string \<Rightarrow> string \<Rightarrow> 'w state \<Rightarrow> (string \<times> error option) \<times> 'w state" where
  "ShowForCommit E commit path s = doGit E [''show'', commit @ '':'' @ path] s"

text \<open>
  The loop of \<open>ShowDeletedFile\<close>: the value of \<open>commit\<close> after it, from the lines still to
  read and the counter \<open>commitID\<close>. \<open>strings.Index(line, " ") + 1\<close> lies within
  \<open>0..len(line)\<close>, so the slice never panics. What the function prints is left out.
\<close>

fun ShowDeletedFile_lines :: "string list \<Rightarrow> int \<Rightarrow> string" where
  "ShowDeletedFile_lines [] commitID = []"
| "ShowDeletedFile_lines (line # lines) commitID =
     (if HasPrefix line ''commit''
      then (if commitID + 1 = 2 then drop (nat (Index line '' '' + 1)) line
            else ShowDeletedFile_lines lines (commitID + 1))
      else ShowDeletedFile_lines lines commitID)"

definition ShowDeletedFile :: "'w Env \<Rightarrow> string \<Rightarrow> 'w state \<Rightarrow> (string \<times> error option) \<times> 'w state" where
  "ShowDeletedFile E path s =
     (case doGit E [''log'', ''--full-history'', ''-2'', ''--'', path] s of
        ((out, Some err), s') \<Rightarrow> (([], Some err), s')
      | ((out, None), s') \<Rightarrow>
          ShowForCommit E (ShowDeletedFile_lines (Split out (CHR 0x0A)) 0) path s')"

definition CommitAuthor :: "'w Env \<Rightarrow> string \<Rightarrow> 'w state \<Rightarrow> (string \<times> error option) \<times> 'w state" where
  "CommitAuthor E commit s =
     (case doGit E [''log'', ''--format='' @ [CHR 0x27] @ ''%ae'' @ [CHR 0x27], commit @ ''^!''] s of
        ((out, Some err), s') \<Rightarrow>
          (([], Wrap (Some err) (''error retrieving author for commit '' @ commit)), s')
      | ((out, None), s') \<Rightarrow> ((out, None), s'))"

text \<open>
  \<open>New\<close>. \<open>strings.Split\<close> returns at least one piece (\<open>Split_not_Nil\<close> below), so
  \<open>parts[len(parts)-1:][0]\<close> is the last piece and does not panic. The state returned
  holds the struct that \<open>New\<close> allocated, also when \<open>New\<close> returns a \<open>nil\<close> pointer.
\<close>

definition New_repoName :: "string \<Rightarrow> string" where
  "New_repoName url =
     (let parts = Split url (CHR ''/'');
          repoName = last parts
      in if HasSuffix repoName ''.git'' then take (length repoName - 4) repoName else repoName)"

definition New_repo :: "'w Env \<Rightarrow> string \<Rightarrow> string \<Rightarrow> SetOptFunc list \<Rightarrow> Repo" where
  "New_repo E url workDir options =
     (let opts = getOpts options;
          repoName = New_repoName url
      in \<lparr>URL = url, Name = repoName, WorkDir = workDir,
          RepoDir = (if CloneDir opts \<noteq> [] then path_Join E workDir (CloneDir opts)
                     else path_Join E workDir repoName)\<rparr>)"

definition New :: "'w Env \<Rightarrow> string \<Rightarrow> string \<Rightarrow> string \<Rightarrow> SetOptFunc list \<Rightarrow> 'w \<Rightarrow>
    (Repo option \<times> error option) outcome \<times> 'w state" where
  "New E url branch workDir options w =
     (case CloneOrPull E \<lparr>repo = New_repo E url workDir options, issued = [], world = w\<rparr> of
        (Some err, s1) \<Rightarrow> (Returns (None, Some err), s1)
      | (None, s1) \<Rightarrow>
          (case Branch E s1 of
             (Panics, s2) \<Rightarrow> (Panics, s2)
           | (Returns (currentBranch, Some err), s2) \<Rightarrow> (Returns (None, Some err), s2)
           | (Returns (currentBranch, None), s2) \<Rightarrow>
               if currentBranch \<noteq> branch
               then (case Checkout E branch s2 of
                       (Some err, s3) \<Rightarrow> (Returns (None, Some err), s3)
                     | (None, s3) \<Rightarrow> (Returns (Some (repo s3), None), s3))
               else (Returns (Some (repo s2), None), s2)))"

section \<open>A scripted environment\<close>

text \<open>
  An environment for running the model on concrete inputs: \<open>st\<close> answers \<open>os.Stat\<close> by
  path, \<open>ex\<close> answers each command, and the world has no state of its own.
\<close>

definition scripted :: "(string \<Rightarrow> error option) \<Rightarrow> (Cmd \<Rightarrow> string \<times> error option) \<Rightarrow> unit Env" where
  "scripted st ex =
     \<lparr>os_Stat = (\<lambda>p w. st p), CombinedOutput = (\<lambda>cmd w. (ex cmd, w)),
      path_Join = (\<lambda>a b. a @ ''/'' @ b)\<rparr>"

section \<open>The specification's words\<close>

text \<open>
  The specification of \<open>DiffStatus\<close> in its own terms, to compare the loop with: a line is
  accepted when it has exactly two white-space separated fields and the first is one of
  \<open>A\<close>, \<open>M\<close>, \<open>D\<close>; the record of an accepted line has the kind that its code stands for
  and the second field as its path.
\<close>

definition accepted :: "string \<Rightarrow> bool" where
  "accepted line =
     (length (Fields line) = 2 \<and> Fields line ! 0 \<in> {''A'', ''M'', ''D''})"

definition changeRecord :: "string \<Rightarrow> DiffStat" where
  "changeRecord line =
     \<lparr>Stat = (if Fields line ! 0 = ''A'' then StatNew
              else if Fields line ! 0 = ''M'' then StatModified
              else StatDeleted),
      Filename = Fields line ! 1\<rparr>"

text \<open>What a field is: not empty, and without ASCII white space.\<close>

definition goodField :: "string \<Rightarrow> bool" where
  "goodField f = (f \<noteq> [] \<and> (\<forall>c \<in> set f. \<not> asciiSpace c))"

text \<open>A handle and a state to run the model on.\<close>

definition demoRepo :: Repo where
  "demoRepo =
     \<lparr>URL = ''https://example.org/team/project.git'', Name = ''project'', WorkDir = ''/work'',
      RepoDir = ''/work/project''\<rparr>"

definition demoState :: "unit state" where
  "demoState = \<lparr>repo = demoRepo, issued = [], world = ()\<rparr>"

text \<open>The diff output of the specification's scenario: three known codes and a rename.\<close>

definition diffOut :: string where
  "diffOut =
     ''A'' @ [CHR 0x09] @ ''new.txt'' @ [CHR 0x0A] @ ''M'' @ [CHR 0x09] @ ''old.txt'' @ [CHR 0x0A] @
     ''D'' @ [CHR 0x09] @ ''gone.txt'' @ [CHR 0x0A] @ ''R100'' @ [CHR 0x09] @ ''renamed.txt'' @
     [CHR 0x0A]"

text \<open>An output of the revision command with white space on every side.\<close>

definition revOut :: string where
  "revOut = '' 3f2a91c'' @ [CHR 0x09] @ ''x '' @ [CHR 0x0A, CHR 0x0A]"

text \<open>An environment in which every path exists and every command prints \<open>* main\<close>.\<close>

definition demoEnv :: "unit Env" where
  "demoEnv = scripted (\<lambda>p. None) (\<lambda>cmd. (''* main'', None))"

text \<open>
  A status output of a clean working copy, and two more environments: in \<open>cleanEnv\<close>
  every path exists and the status command prints that output; in \<open>freshEnv\<close> the
  \<open>.git\<close> directory of the working copy does not exist.
\<close>

definition statusOut :: string where
  "statusOut =
     ''On branch main'' @ [CHR 0x0A] @ ''Your branch is up-to-date with origin/main.'' @ [CHR 0x0A] @
     ''nothing to commit, working directory clean'' @ [CHR 0x0A]"

definition cleanEnv :: "unit Env" where
  "cleanEnv =
     scripted (\<lambda>p. None)
       (\<lambda>cmd. if Args cmd = [''status''] then (statusOut, None)
              else if Args cmd = [''branch''] then (''* main'', None)
              else ([], None))"


text \<open>An environment in which the tool prints one line that is a lone \<open>*\<close>.\<close>

definition starEnv :: "unit Env" where
  "starEnv = scripted (\<lambda>p. None) (\<lambda>cmd. (''*'' @ [CHR 0x0A], None))"

text \<open>
  Two outputs of the history command, with the environments that print them: the
  scenario of the specification, and one whose second line beginning with \<open>commit\<close> has
  no space.
\<close>

definition logOut :: string where
  "logOut =
     ''commit abc123'' @ [CHR 0x0A] @ ''Author: A'' @ [CHR 0x0A] @ ''    remove it'' @ [CHR 0x0A] @
     ''commit def456'' @ [CHR 0x0A] @ ''Author: B'' @ [CHR 0x0A] @ ''    add it'' @ [CHR 0x0A]"

definition logEnv :: "unit Env" where
  "logEnv = scripted (\<lambda>p. None) (\<lambda>cmd. (logOut, None))"

definition oddLogOut :: string where
  "oddLogOut = ''commit abc123'' @ [CHR 0x0A] @ ''committer'' @ [CHR 0x0A] @ ''commit def456'' @ [CHR 0x0A]"

definition oddLogEnv :: "unit Env" where
  "oddLogEnv = scripted (\<lambda>p. None) (\<lambda>cmd. (oddLogOut, None))"

section \<open>Facts about the string functions\<close>

lemma Index_byte_neg: "Index s [c] < 0 \<longleftrightarrow> c \<notin> set s"
  by (induction s) (auto simp: Let_def HasPrefix_def)

lemma takeWhile_upto_sep: "sep \<notin> set p \<Longrightarrow> takeWhile (\<lambda>x. x \<noteq> sep) (p @ sep # t) = p"
  by (induction p) auto

lemma Index_byte_takeWhile: "c \<in> set s \<Longrightarrow> Index s [c] = int (length (takeWhile (\<lambda>x. x \<noteq> c) s))"
  by (induction s) (auto simp: Let_def HasPrefix_def Index_byte_neg)

lemma Index_byte_first: "c \<notin> set p \<Longrightarrow> Index (p @ c # t) [c] = int (length p)"
  by (simp add: Index_byte_takeWhile takeWhile_upto_sep)

lemma Split_no_sep: "sep \<notin> set s \<Longrightarrow> Split s sep = [s]"
  by (subst Split.simps) (simp add: Index_byte_neg)

lemma Split_append_sep: "sep \<notin> set p \<Longrightarrow> Split (p @ sep # t) sep = p # Split t sep"
  by (subst Split.simps) (simp add: Index_byte_first)

lemma Split_Nil: "Split [] sep = [[]]"
  by (simp add: Split_no_sep)

lemma Split_Cons:
  "Split (c # s) sep =
     (if c = sep then [] # Split s sep else (c # hd (Split s sep)) # tl (Split s sep))"
proof (cases "c = sep")
  case True
  then show ?thesis using Split_append_sep [of sep "[]" s] by simp
next
  case False
  show ?thesis
  proof (cases "sep \<in> set s")
    case True
    then obtain p t where s: "s = p @ sep # t" and p: "sep \<notin> set p"
      by (meson split_list_first)
    have "sep \<notin> set (c # p)" using False p by auto
    then have "Split ((c # p) @ sep # t) sep = (c # p) # Split t sep"
      by (rule Split_append_sep)
    then show ?thesis using False s p by (simp add: Split_append_sep)
  next
    case F2: False
    then show ?thesis using False by (simp add: Split_no_sep)
  qed
qed

lemma Split_not_Nil: "Split s sep \<noteq> []"
  by (cases s) (simp_all add: Split_Nil Split_Cons)

lemma Split_pieces: "p \<in> set (Split s sep) \<Longrightarrow> sep \<notin> set p"
proof (induction s arbitrary: p)
  case Nil
  then show ?case by (simp add: Split_Nil)
next
  case (Cons c s)
  show ?case
  proof (cases "c = sep")
    case True
    with Cons show ?thesis by (auto simp: Split_Cons)
  next
    case False
    have ne: "Split s sep \<noteq> []" by (rule Split_not_Nil)
    from Cons.prems False have "p = c # hd (Split s sep) \<or> p \<in> set (tl (Split s sep))"
      by (simp add: Split_Cons)
    then show ?thesis
    proof
      assume "p = c # hd (Split s sep)"
      moreover have "sep \<notin> set (hd (Split s sep))"
        using Cons.IH [of "hd (Split s sep)"] ne by simp
      ultimately show ?thesis using False by simp
    next
      assume "p \<in> set (tl (Split s sep))"
      then have "p \<in> set (Split s sep)" using ne by (meson list.set_sel(2))
      then show ?thesis by (rule Cons.IH)
    qed
  qed
qed

lemma Join_Split: "Join (Split s sep) [sep] = s"
proof (induction s)
  case Nil
  then show ?case by (simp add: Split_Nil)
next
  case (Cons c s)
  obtain p ps where sp: "Split s sep = p # ps"
    using Split_not_Nil [of s sep] by (cases "Split s sep") auto
  show ?case
  proof (cases "c = sep")
    case True
    with Cons sp show ?thesis by (simp add: Split_Cons)
  next
    case False
    with Cons sp show ?thesis by (cases ps) (simp_all add: Split_Cons)
  qed
qed

lemma Split_last:
  "\<exists>pre. s = pre @ last (Split s sep) \<and> (pre = [] \<or> last pre = sep)"
proof (induction s)
  case Nil
  then show ?case by (simp add: Split_Nil)
next
  case (Cons c s)
  then obtain pre where pre: "s = pre @ last (Split s sep)" "pre = [] \<or> last pre = sep"
    by blast
  obtain p ps where sp: "Split s sep = p # ps"
    using Split_not_Nil [of s sep] by (cases "Split s sep") auto
  show ?case
  proof (cases "c = sep")
    case True
    have "c # s = (c # pre) @ last (Split (c # s) sep)"
      using pre(1) True sp by (simp add: Split_Cons)
    moreover have "last (c # pre) = sep" using pre(2) True by auto
    ultimately show ?thesis by blast
  next
    case False
    show ?thesis
    proof (cases ps)
      case Nil
      then have "last (Split (c # s) sep) = c # s"
        using False sp Join_Split [of s sep] by (simp add: Split_Cons)
      then show ?thesis by simp
    next
      case (Cons q qs)
      then have l: "last (Split (c # s) sep) = last (Split s sep)"
        using False sp by (simp add: Split_Cons)
      have "pre \<noteq> []"
      proof
        assume "pre = []"
        then have "s = last (Split s sep)" using pre(1) by simp
        then have "s \<in> set (Split s sep)" using Split_not_Nil [of s sep] by (metis last_in_set)
        then have "sep \<notin> set s" by (rule Split_pieces)
        then have "Split s sep = [s]" by (rule Split_no_sep)
        with sp Cons show False by simp
      qed
      then have "last (c # pre) = sep" using pre(2) by simp
      moreover have "c # s = (c # pre) @ last (Split (c # s) sep)"
        using pre(1) l by simp
      ultimately show ?thesis by blast
    qed
  qed
qed

text \<open>The fields that \<open>Fields\<close> returns are not empty and hold no ASCII white space.\<close>

lemma spaceWidth_ascii: "spaceWidth (c # cs) = 0 \<Longrightarrow> \<not> asciiSpace c"
  by (cases "asciiSpace c") (simp_all add: spaceWidth_def)

lemma FieldsLoop_space:
  "0 < spaceWidth (c # cs) \<Longrightarrow>
   FieldsLoop cur (c # cs) =
     (case cur of None \<Rightarrow> [] | Some f \<Rightarrow> [f]) @ FieldsLoop None (drop (spaceWidth (c # cs) - 1) cs)"
  by (cases cur) simp_all

lemma FieldsLoop_other:
  "spaceWidth (c # cs) = 0 \<Longrightarrow>
   FieldsLoop cur (c # cs) = FieldsLoop (Some ((case cur of None \<Rightarrow> [] | Some f \<Rightarrow> f) @ [c])) cs"
  by (cases cur) simp_all

lemma FieldsLoop_fields:
  "(\<And>f. cur = Some f \<Longrightarrow> goodField f) \<Longrightarrow> f \<in> set (FieldsLoop cur s) \<Longrightarrow> goodField f"
proof (induction s arbitrary: cur rule: length_induct)
  case (1 s)
  show ?case
  proof (cases s)
    case Nil
    with 1 show ?thesis by (cases cur) simp_all
  next
    case (Cons c cs)
    show ?thesis
    proof (cases "0 < spaceWidth (c # cs)")
      case True
      from "1.prems"(2) have "f \<in> set (case cur of None \<Rightarrow> [] | Some f \<Rightarrow> [f]) \<or>
          f \<in> set (FieldsLoop None (drop (spaceWidth (c # cs) - 1) cs))"
        unfolding Cons FieldsLoop_space [OF True] by simp
      then show ?thesis
      proof
        assume "f \<in> set (case cur of None \<Rightarrow> [] | Some f \<Rightarrow> [f])"
        then have "cur = Some f" by (cases cur) simp_all
        then show ?thesis by (rule "1.prems"(1))
      next
        assume a: "f \<in> set (FieldsLoop None (drop (spaceWidth (c # cs) - 1) cs))"
        have "length (drop (spaceWidth (c # cs) - 1) cs) < length s" using Cons by simp
        with "1.IH" a show ?thesis by blast
      qed
    next
      case False
      then have z: "spaceWidth (c # cs) = 0" by simp
      then have na: "\<not> asciiSpace c" by (rule spaceWidth_ascii)
      let ?g = "(case cur of None \<Rightarrow> [] | Some f \<Rightarrow> f) @ [c]"
      have g: "goodField ?g"
      proof (cases cur)
        case None
        with na show ?thesis by (simp add: goodField_def)
      next
        case (Some h)
        then have "goodField h" by (rule "1.prems"(1))
        with Some na show ?thesis by (simp add: goodField_def)
      qed
      from "1.prems"(2) have a: "f \<in> set (FieldsLoop (Some ?g) cs)"
        unfolding Cons FieldsLoop_other [OF z] .
      have "length cs < length s" using Cons by simp
      with "1.IH" a g show ?thesis by blast
    qed
  qed
qed

lemma Fields_fields: "f \<in> set (Fields s) \<Longrightarrow> f \<noteq> [] \<and> (\<forall>c \<in> set f. \<not> asciiSpace c)"
  using FieldsLoop_fields [of None f s] by (simp add: Fields_def goodField_def)

lemma Fields_examples:
  "Fields (''A'' @ [CHR 0x09] @ ''new.txt'') = [''A'', ''new.txt'']"
  "Fields (''R100'' @ [CHR 0x09] @ ''renamed.txt'') = [''R100'', ''renamed.txt'']"
  "Fields (''  M   a b  '') = [''M'', ''a'', ''b'']"
  "Fields (''D'' @ [CHR 0xC2, CHR 0xA0] @ ''x'') = [''D'', ''x'']"
  "Fields [] = []"
  by code_simp+

section \<open>Running the model in the scripted environment\<close>

lemma doGit_scripted_ok:
  "ex \<lparr>Path = ''git'', Args = args, Dir = RepoDir (repo s)\<rparr> = (out, None) \<Longrightarrow>
   doGit (scripted st ex) args s =
     ((out, None), s\<lparr>issued := issued s @ [\<lparr>Path = ''git'', Args = args, Dir = RepoDir (repo s)\<rparr>]\<rparr>)"
  by (simp add: doGit_def run_def scripted_def ProcessState_Success_def gitCommand_def)

lemma CombinedOutput_scripted: "CombinedOutput (scripted st ex) cmd w = (ex cmd, w)"
  by (simp add: scripted_def)



section \<open>Parsing the diff\<close>

lemma statMap_Some: "statMap code = Some st \<longleftrightarrow>
    (code = ''A'' \<and> st = StatNew) \<or> (code = ''M'' \<and> st = StatModified) \<or> (code = ''D'' \<and> st = StatDeleted)"
  by (auto simp: statMap_def)

lemma statMap_None: "statMap code = None \<longleftrightarrow> code \<notin> {''A'', ''M'', ''D''}"
  by (auto simp: statMap_def)

lemma DiffStatus_line_accepted:
  "DiffStatus_line diffs line = (if accepted line then diffs @ [changeRecord line] else diffs)"
proof (cases "length (Fields line) = 2")
  case False
  then show ?thesis by (simp add: DiffStatus_line_def accepted_def)
next
  case True
  show ?thesis
  proof (cases "statMap (Fields line ! 0)")
    case None
    then have "\<not> accepted line" by (simp add: accepted_def statMap_None)
    with None True show ?thesis
      by (simp add: DiffStatus_line_def Let_def)
  next
    case (Some st)
    then have "accepted line \<and> changeRecord line = \<lparr>Stat = st, Filename = Fields line ! 1\<rparr>"
      using True by (auto simp: accepted_def changeRecord_def statMap_Some)
    with Some True show ?thesis
      by (simp add: DiffStatus_line_def Let_def)
  qed
qed

lemma DiffStatus_loop:
  "foldl DiffStatus_line diffs lines = diffs @ map changeRecord (filter accepted lines)"
  by (induction lines arbitrary: diffs) (simp_all add: DiffStatus_line_accepted)

lemma changeRecord_kind: "Stat (changeRecord line) \<in> {StatNew, StatModified, StatDeleted}"
  by (simp add: changeRecord_def)

text \<open>
  C6. Whenever the diff command succeeds, \<open>DiffStatus\<close> returns no error, every record it
  returns has one of the three kinds \<open>StatNew\<close>, \<open>StatModified\<close>, \<open>StatDeleted\<close>, and the
  records are exactly those of the lines that split into two fields with the first field
  \<open>A\<close>, \<open>M\<close> or \<open>D\<close>: a line with another code or another number of fields gives no record
  and no error.
\<close>

theorem DiffStatus_kinds:
  assumes "doGit E [''diff'', ''--name-status'', c1, c2] s = ((out, None), s')"
  shows "\<exists>diffs. DiffStatus E c1 c2 s = ((diffs, None), s') \<and>
           (\<forall>d \<in> set diffs. Stat d = StatNew \<or> Stat d = StatModified \<or> Stat d = StatDeleted) \<and>
           (\<forall>d. d \<in> set diffs \<longleftrightarrow>
              (\<exists>line \<in> set (Split out (CHR 0x0A)).
                 length (Fields line) = 2 \<and>
                 (Fields line ! 0 = ''A'' \<and> d = \<lparr>Stat = StatNew, Filename = Fields line ! 1\<rparr> \<or>
                  Fields line ! 0 = ''M'' \<and> d = \<lparr>Stat = StatModified, Filename = Fields line ! 1\<rparr> \<or>
                  Fields line ! 0 = ''D'' \<and> d = \<lparr>Stat = StatDeleted, Filename = Fields line ! 1\<rparr>)))"
proof -
  let ?lines = "Split out (CHR 0x0A)"
  let ?diffs = "map changeRecord (filter accepted ?lines)"
  let ?ok = "\<lambda>d line. length (Fields line) = 2 \<and>
                 (Fields line ! 0 = ''A'' \<and> d = \<lparr>Stat = StatNew, Filename = Fields line ! 1\<rparr> \<or>
                  Fields line ! 0 = ''M'' \<and> d = \<lparr>Stat = StatModified, Filename = Fields line ! 1\<rparr> \<or>
                  Fields line ! 0 = ''D'' \<and> d = \<lparr>Stat = StatDeleted, Filename = Fields line ! 1\<rparr>)"
  have run: "DiffStatus E c1 c2 s = ((?diffs, None), s')"
    using assms by (simp add: DiffStatus_def DiffStatus_loop)
  have kinds: "\<forall>d \<in> set ?diffs. Stat d = StatNew \<or> Stat d = StatModified \<or> Stat d = StatDeleted"
    using changeRecord_kind by auto
  have ok: "?ok d line \<longleftrightarrow> accepted line \<and> d = changeRecord line" for d line
    by (auto simp: accepted_def changeRecord_def)
  have mem: "d \<in> set ?diffs \<longleftrightarrow> (\<exists>line \<in> set ?lines. ?ok d line)" for d
    unfolding ok by auto
  from run kinds mem show ?thesis by blast
qed

theorem DiffStatus_kinds_witness:
  "doGit (scripted (\<lambda>p. None) (\<lambda>cmd. (diffOut, None))) [''diff'', ''--name-status'', ''HEAD~1'', ''HEAD''] demoState =
     ((diffOut, None),
      demoState\<lparr>issued := [\<lparr>Path = ''git'', Args = [''diff'', ''--name-status'', ''HEAD~1'', ''HEAD''], Dir = ''/work/project''\<rparr>]\<rparr>) \<and>
   (\<exists>diffs. DiffStatus (scripted (\<lambda>p. None) (\<lambda>cmd. (diffOut, None))) ''HEAD~1'' ''HEAD'' demoState =
       ((diffs, None),
        demoState\<lparr>issued := [\<lparr>Path = ''git'', Args = [''diff'', ''--name-status'', ''HEAD~1'', ''HEAD''], Dir = ''/work/project''\<rparr>]\<rparr>) \<and>
       (\<forall>d \<in> set diffs. Stat d = StatNew \<or> Stat d = StatModified \<or> Stat d = StatDeleted))"
proof -
  have h: "doGit (scripted (\<lambda>p. None) (\<lambda>cmd. (diffOut, None))) [''diff'', ''--name-status'', ''HEAD~1'', ''HEAD''] demoState =
     ((diffOut, None),
      demoState\<lparr>issued := [\<lparr>Path = ''git'', Args = [''diff'', ''--name-status'', ''HEAD~1'', ''HEAD''], Dir = ''/work/project''\<rparr>]\<rparr>)"
    by (simp add: doGit_scripted_ok demoState_def demoRepo_def)
  from DiffStatus_kinds [OF h] obtain diffs where
    "DiffStatus (scripted (\<lambda>p. None) (\<lambda>cmd. (diffOut, None))) ''HEAD~1'' ''HEAD'' demoState =
       ((diffs, None),
        demoState\<lparr>issued := [\<lparr>Path = ''git'', Args = [''diff'', ''--name-status'', ''HEAD~1'', ''HEAD''], Dir = ''/work/project''\<rparr>]\<rparr>)"
    "\<forall>d \<in> set diffs. Stat d = StatNew \<or> Stat d = StatModified \<or> Stat d = StatDeleted"
    by blast
  with h show ?thesis by blast
qed

text \<open>The scenario of the specification: three records, the rename line dropped.\<close>

lemma DiffStatus_scenario:
  "foldl DiffStatus_line [] (Split diffOut (CHR 0x0A)) =
     [\<lparr>Stat = StatNew, Filename = ''new.txt''\<rparr>, \<lparr>Stat = StatModified, Filename = ''old.txt''\<rparr>,
      \<lparr>Stat = StatDeleted, Filename = ''gone.txt''\<rparr>]"
  by code_simp

text \<open>
  C10. Whenever the diff command succeeds, the records \<open>DiffStatus\<close> returns are those of
  the accepted lines in the order of the lines: the list of records is the list of
  accepted lines, each turned into its record, so the k-th record is the record of the
  k-th accepted line.
\<close>

theorem DiffStatus_order:
  assumes "doGit E [''diff'', ''--name-status'', c1, c2] s = ((out, None), s')"
  shows "\<exists>diffs. DiffStatus E c1 c2 s = ((diffs, None), s') \<and>
           diffs = map changeRecord (filter accepted (Split out (CHR 0x0A))) \<and>
           (\<forall>k < length diffs. diffs ! k = changeRecord (filter accepted (Split out (CHR 0x0A)) ! k))"
  using assms by (simp add: DiffStatus_def DiffStatus_loop)

theorem DiffStatus_order_witness:
  "doGit (scripted (\<lambda>p. None) (\<lambda>cmd. (diffOut, None))) [''diff'', ''--name-status'', ''v1'', ''v2''] demoState =
     ((diffOut, None),
      demoState\<lparr>issued := [\<lparr>Path = ''git'', Args = [''diff'', ''--name-status'', ''v1'', ''v2''], Dir = ''/work/project''\<rparr>]\<rparr>) \<and>
   DiffStatus (scripted (\<lambda>p. None) (\<lambda>cmd. (diffOut, None))) ''v1'' ''v2'' demoState =
     (([\<lparr>Stat = StatNew, Filename = ''new.txt''\<rparr>, \<lparr>Stat = StatModified, Filename = ''old.txt''\<rparr>,
        \<lparr>Stat = StatDeleted, Filename = ''gone.txt''\<rparr>], None),
      demoState\<lparr>issued := [\<lparr>Path = ''git'', Args = [''diff'', ''--name-status'', ''v1'', ''v2''], Dir = ''/work/project''\<rparr>]\<rparr>)"
proof -
  have h: "doGit (scripted (\<lambda>p. None) (\<lambda>cmd. (diffOut, None))) [''diff'', ''--name-status'', ''v1'', ''v2''] demoState =
     ((diffOut, None),
      demoState\<lparr>issued := [\<lparr>Path = ''git'', Args = [''diff'', ''--name-status'', ''v1'', ''v2''], Dir = ''/work/project''\<rparr>]\<rparr>)"
    by (simp add: doGit_scripted_ok demoState_def demoRepo_def)
  have lines: "map changeRecord (filter accepted (Split diffOut (CHR 0x0A))) =
      [\<lparr>Stat = StatNew, Filename = ''new.txt''\<rparr>, \<lparr>Stat = StatModified, Filename = ''old.txt''\<rparr>,
       \<lparr>Stat = StatDeleted, Filename = ''gone.txt''\<rparr>]"
    by code_simp
  from DiffStatus_order [OF h] obtain diffs where
    d: "DiffStatus (scripted (\<lambda>p. None) (\<lambda>cmd. (diffOut, None))) ''v1'' ''v2'' demoState =
       ((diffs, None),
        demoState\<lparr>issued := [\<lparr>Path = ''git'', Args = [''diff'', ''--name-status'', ''v1'', ''v2''], Dir = ''/work/project''\<rparr>]\<rparr>)"
    and e: "diffs = map changeRecord (filter accepted (Split diffOut (CHR 0x0A)))"
    by (elim exE conjE)
  from d e lines h show ?thesis by (simp only: simp_thms)
qed

section \<open>The current commit\<close>

lemma HasSuffix_iff: "HasSuffix s suffix \<longleftrightarrow> (\<exists>body. s = body @ suffix)"
proof
  assume h: "HasSuffix s suffix"
  have "s = take (length s - length suffix) s @ drop (length s - length suffix) s" by simp
  with h have "s = take (length s - length suffix) s @ suffix" by (simp add: HasSuffix_def)
  then show "\<exists>body. s = body @ suffix" ..
next
  assume "\<exists>body. s = body @ suffix"
  then show "HasSuffix s suffix" by (auto simp: HasSuffix_def)
qed

lemma TrimSuffix_append: "TrimSuffix (body @ suffix) suffix = body"
  by (simp add: TrimSuffix_def HasSuffix_iff)

lemma TrimSuffix_other: "\<not> HasSuffix s suffix \<Longrightarrow> TrimSuffix s suffix = s"
  by (simp add: TrimSuffix_def)

text \<open>
  C8. Whenever the revision command succeeds, \<open>CurrentCommit\<close> returns its output without
  one trailing line feed: an output that ends in a line feed loses exactly that one byte
  (whatever stands before it stays, further line feeds and other white space included),
  and an output that does not end in a line feed is returned as it is.
\<close>

theorem CurrentCommit_trims_one_newline:
  assumes "doGit E [''rev-parse'', ''HEAD''] s = ((out, None), s')"
  shows "\<exists>commit. CurrentCommit E s = ((commit, None), s') \<and>
           (\<forall>body. out = body @ [CHR 0x0A] \<longrightarrow> commit = body) \<and>
           ((\<nexists>body. out = body @ [CHR 0x0A]) \<longrightarrow> commit = out)"
proof -
  have "CurrentCommit E s = ((TrimSuffix out [CHR 0x0A], None), s')"
    using assms by (simp add: CurrentCommit_def)
  moreover have "\<forall>body. out = body @ [CHR 0x0A] \<longrightarrow> TrimSuffix out [CHR 0x0A] = body"
    by (simp add: TrimSuffix_append)
  moreover have "(\<nexists>body. out = body @ [CHR 0x0A]) \<longrightarrow> TrimSuffix out [CHR 0x0A] = out"
    by (simp add: TrimSuffix_other HasSuffix_iff)
  ultimately show ?thesis by blast
qed

theorem CurrentCommit_trims_one_newline_witness:
  "doGit (scripted (\<lambda>p. None) (\<lambda>cmd. (revOut, None))) [''rev-parse'', ''HEAD''] demoState =
     ((revOut, None),
      demoState\<lparr>issued := [\<lparr>Path = ''git'', Args = [''rev-parse'', ''HEAD''], Dir = ''/work/project''\<rparr>]\<rparr>) \<and>
   CurrentCommit (scripted (\<lambda>p. None) (\<lambda>cmd. (revOut, None))) demoState =
     (('' 3f2a91c'' @ [CHR 0x09] @ ''x '' @ [CHR 0x0A], None),
      demoState\<lparr>issued := [\<lparr>Path = ''git'', Args = [''rev-parse'', ''HEAD''], Dir = ''/work/project''\<rparr>]\<rparr>)"
proof -
  have h: "doGit (scripted (\<lambda>p. None) (\<lambda>cmd. (revOut, None))) [''rev-parse'', ''HEAD''] demoState =
     ((revOut, None),
      demoState\<lparr>issued := [\<lparr>Path = ''git'', Args = [''rev-parse'', ''HEAD''], Dir = ''/work/project''\<rparr>]\<rparr>)"
    by (simp add: doGit_scripted_ok demoState_def demoRepo_def)
  have r: "revOut = ('' 3f2a91c'' @ [CHR 0x09] @ ''x '' @ [CHR 0x0A]) @ [CHR 0x0A]"
    by (simp add: revOut_def)
  from CurrentCommit_trims_one_newline [OF h] obtain commit where
    c: "CurrentCommit (scripted (\<lambda>p. None) (\<lambda>cmd. (revOut, None))) demoState =
     ((commit, None),
      demoState\<lparr>issued := [\<lparr>Path = ''git'', Args = [''rev-parse'', ''HEAD''], Dir = ''/work/project''\<rparr>]\<rparr>)"
    and b: "\<forall>body. revOut = body @ [CHR 0x0A] \<longrightarrow> commit = body"
    by blast
  have "commit = '' 3f2a91c'' @ [CHR 0x09] @ ''x '' @ [CHR 0x0A]"
    using b [rule_format, OF r] .
  with c h show ?thesis by (simp only: simp_thms)
qed

section \<open>What a command leaves behind\<close>

lemma run_state:
  "snd (run E cmd s) = s\<lparr>issued := issued s @ [cmd], world := snd (CombinedOutput E cmd (world s))\<rparr>"
  by (simp add: run_def split: prod.splits)

lemma doGit_state:
  "snd (doGit E args s) =
     s\<lparr>issued := issued s @ [gitCommand args (RepoDir (repo s))],
       world := snd (CombinedOutput E (gitCommand args (RepoDir (repo s))) (world s))\<rparr>"
  by (simp add: doGit_def run_def split: prod.splits)

lemma doGit_result:
  "fst (doGit E args s) =
     (case fst (CombinedOutput E (gitCommand args (RepoDir (repo s))) (world s)) of
        (out, None) \<Rightarrow> (out, None)
      | (out, Some e) \<Rightarrow>
          ([], Some (ErrWrap e (''failed to run command '' @ [CHR 0x27] @ ''git '' @ Join args '' '' @
                   [CHR 0x27] @ '' on repo '' @ Name (repo s) @ '': '' @ out))))"
  by (simp add: doGit_def run_def ProcessState_Success_def split: prod.splits option.splits)

lemma doGit_frame: "doGit E args s = (r, s') \<Longrightarrow> repo s' = repo s"
  using doGit_state [of E args s] by simp

lemma Clone_frame: "Clone E s = (r, s') \<Longrightarrow> repo s' = repo s"
  by (auto simp: Clone_def run_def split: prod.splits option.splits if_splits dest!: doGit_frame)

lemma Pull_frame: "Pull E options s = (r, s') \<Longrightarrow> repo s' = repo s"
  by (auto simp: Pull_def Let_def split: prod.splits if_splits dest!: doGit_frame)

lemma IsClean_frame: "IsClean E s = (r, s') \<Longrightarrow> repo s' = repo s"
  by (auto simp: IsClean_def split: prod.splits option.splits if_splits dest!: doGit_frame)

lemma CloneOrPull_frame: "CloneOrPull E s = (r, s') \<Longrightarrow> repo s' = repo s"
  by (auto simp: CloneOrPull_def split: prod.splits if_splits
      dest!: Clone_frame IsClean_frame Pull_frame)

lemma Commit_frame: "Commit E msg s = (r, s') \<Longrightarrow> repo s' = repo s"
  by (auto simp: Commit_def split: prod.splits dest!: doGit_frame)

lemma Push_frame: "Push E s = (r, s') \<Longrightarrow> repo s' = repo s"
  by (auto simp: Push_def split: prod.splits dest!: doGit_frame)

lemma Add_frame: "Add E pattern s = (r, s') \<Longrightarrow> repo s' = repo s"
  by (auto simp: Add_def split: prod.splits dest!: doGit_frame)

lemma Checkout_frame: "Checkout E b s = (r, s') \<Longrightarrow> repo s' = repo s"
  by (auto simp: Checkout_def split: prod.splits dest!: doGit_frame)

lemma AddCommitPush_frame: "AddCommitPush E msg s = (r, s') \<Longrightarrow> repo s' = repo s"
  by (auto simp: AddCommitPush_def split: prod.splits option.splits
      dest!: Add_frame Commit_frame Push_frame)

lemma Branch_frame: "Branch E s = (r, s') \<Longrightarrow> repo s' = repo s"
  by (auto simp: Branch_def split: prod.splits option.splits dest!: doGit_frame)

lemma CurrentCommit_frame: "CurrentCommit E s = (r, s') \<Longrightarrow> repo s' = repo s"
  by (auto simp: CurrentCommit_def split: prod.splits option.splits dest!: doGit_frame)

lemma DiffStatus_frame: "DiffStatus E c1 c2 s = (r, s') \<Longrightarrow> repo s' = repo s"
  by (auto simp: DiffStatus_def split: prod.splits option.splits dest!: doGit_frame)

lemma ShowForCommit_frame: "ShowForCommit E commit path s = (r, s') \<Longrightarrow> repo s' = repo s"
  by (auto simp: ShowForCommit_def dest!: doGit_frame)

lemma ShowDeletedFile_frame: "ShowDeletedFile E path s = (r, s') \<Longrightarrow> repo s' = repo s"
  by (auto simp: ShowDeletedFile_def split: prod.splits option.splits
      dest!: doGit_frame ShowForCommit_frame)

lemma CommitAuthor_frame: "CommitAuthor E commit s = (r, s') \<Longrightarrow> repo s' = repo s"
  by (auto simp: CommitAuthor_def split: prod.splits option.splits dest!: doGit_frame)

lemma New_frame:
  "New E url branch workDir options w = (r, s') \<Longrightarrow> repo s' = New_repo E url workDir options"
  by (auto simp: New_def split: prod.splits option.splits outcome.splits if_splits
      dest!: CloneOrPull_frame Branch_frame Checkout_frame)

text \<open>
  C9. The fields \<open>URL\<close>, \<open>Name\<close>, \<open>WorkDir\<close> and \<open>RepoDir\<close> of the handle are those that \<open>New\<close>
  computed, and no operation on the handle changes any of them: after each operation,
  whatever the commands did and returned, the struct is the one it was before.
\<close>

theorem handle_fields_fixed:
  "repo (snd (New E url branch workDir options w)) = New_repo E url workDir options \<and>
   repo (snd (doGit E args s)) = repo s \<and>
   repo (snd (Clone E s)) = repo s \<and>
   repo (snd (Pull E options s)) = repo s \<and>
   repo (snd (CloneOrPull E s)) = repo s \<and>
   repo (snd (IsClean E s)) = repo s \<and>
   repo (snd (Checkout E b s)) = repo s \<and>
   repo (snd (Branch E s)) = repo s \<and>
   repo (snd (CurrentCommit E s)) = repo s \<and>
   repo (snd (CommitAuthor E commit s)) = repo s \<and>
   repo (snd (DiffStatus E c1 c2 s)) = repo s \<and>
   repo (snd (ShowDeletedFile E path s)) = repo s \<and>
   repo (snd (ShowForCommit E commit path s)) = repo s \<and>
   repo (snd (Add E pattern s)) = repo s \<and>
   repo (snd (Commit E msg s)) = repo s \<and>
   repo (snd (Push E s)) = repo s \<and>
   repo (snd (AddCommitPush E msg s)) = repo s"
  by (intro conjI)
    (rule New_frame doGit_frame Clone_frame Pull_frame CloneOrPull_frame IsClean_frame
       Checkout_frame Branch_frame CurrentCommit_frame CommitAuthor_frame DiffStatus_frame
       ShowDeletedFile_frame ShowForCommit_frame Add_frame Commit_frame Push_frame
       AddCommitPush_frame, rule surjective_pairing)+

theorem handle_fields_fixed_witness:
  "repo (snd (New demoEnv ''https://example.org/team/project.git'' ''main'' ''/work'' [] ())) =
     New_repo demoEnv ''https://example.org/team/project.git'' ''/work'' [] \<and>
   repo (snd (doGit demoEnv [''gc''] demoState)) = repo demoState \<and>
   repo (snd (Clone demoEnv demoState)) = repo demoState \<and>
   repo (snd (Pull demoEnv [] demoState)) = repo demoState \<and>
   repo (snd (CloneOrPull demoEnv demoState)) = repo demoState \<and>
   repo (snd (IsClean demoEnv demoState)) = repo demoState \<and>
   repo (snd (Checkout demoEnv ''develop'' demoState)) = repo demoState \<and>
   repo (snd (Branch demoEnv demoState)) = repo demoState \<and>
   repo (snd (CurrentCommit demoEnv demoState)) = repo demoState \<and>
   repo (snd (CommitAuthor demoEnv ''HEAD'' demoState)) = repo demoState \<and>
   repo (snd (DiffStatus demoEnv ''v1'' ''v2'' demoState)) = repo demoState \<and>
   repo (snd (ShowDeletedFile demoEnv ''gone.txt'' demoState)) = repo demoState \<and>
   repo (snd (ShowForCommit demoEnv ''HEAD'' ''gone.txt'' demoState)) = repo demoState \<and>
   repo (snd (Add demoEnv ''.'' demoState)) = repo demoState \<and>
   repo (snd (Commit demoEnv ''message'' demoState)) = repo demoState \<and>
   repo (snd (Push demoEnv demoState)) = repo demoState \<and>
   repo (snd (AddCommitPush demoEnv ''message'' demoState)) = repo demoState"
  by (rule handle_fields_fixed)

section \<open>Substrings\<close>

lemma HasPrefix_iff: "HasPrefix s prefix \<longleftrightarrow> (\<exists>post. s = prefix @ post)"
proof
  assume h: "HasPrefix s prefix"
  have "s = take (length prefix) s @ drop (length prefix) s" by simp
  with h have "s = prefix @ drop (length prefix) s" by (simp add: HasPrefix_def)
  then show "\<exists>post. s = prefix @ post" ..
next
  assume "\<exists>post. s = prefix @ post"
  then show "HasPrefix s prefix" by (auto simp: HasPrefix_def)
qed

lemma Index_Cons_nonneg:
  "0 \<le> Index (c # s) substr \<longleftrightarrow> HasPrefix (c # s) substr \<or> 0 \<le> Index s substr"
  by (simp add: Let_def)

lemma Contains_iff: "Contains s substr \<longleftrightarrow> (\<exists>pre post. s = pre @ substr @ post)"
proof (induction s)
  case Nil
  then show ?case by (simp add: Contains_def)
next
  case (Cons c s)
  have "Contains (c # s) substr \<longleftrightarrow> HasPrefix (c # s) substr \<or> Contains s substr"
    unfolding Contains_def by (rule Index_Cons_nonneg)
  also have "\<dots> \<longleftrightarrow> (\<exists>post. c # s = substr @ post) \<or> (\<exists>pre post. s = pre @ substr @ post)"
    by (simp add: HasPrefix_iff Cons.IH)
  also have "\<dots> \<longleftrightarrow> (\<exists>pre post. c # s = pre @ substr @ post)"
  proof
    assume "(\<exists>post. c # s = substr @ post) \<or> (\<exists>pre post. s = pre @ substr @ post)"
    then show "\<exists>pre post. c # s = pre @ substr @ post"
    proof
      assume "\<exists>post. c # s = substr @ post"
      then obtain post where "c # s = [] @ substr @ post" by auto
      then show ?thesis by blast
    next
      assume "\<exists>pre post. s = pre @ substr @ post"
      then obtain pre post where "c # s = (c # pre) @ substr @ post" by auto
      then show ?thesis by blast
    qed
  next
    assume "\<exists>pre post. c # s = pre @ substr @ post"
    then obtain pre post where p: "c # s = pre @ substr @ post" by blast
    show "(\<exists>post. c # s = substr @ post) \<or> (\<exists>pre post. s = pre @ substr @ post)"
    proof (cases pre)
      case Nil
      with p show ?thesis by auto
    next
      case (Cons a pre')
      with p have "s = pre' @ substr @ post" by simp
      then show ?thesis by blast
    qed
  qed
  finally show ?case .
qed

section \<open>Is the working copy clean\<close>

lemma doGit_ok:
  "CombinedOutput E (gitCommand args (RepoDir (repo s))) (world s) = ((out, None), w') \<Longrightarrow>
   doGit E args s = ((out, None), s\<lparr>issued := issued s @ [gitCommand args (RepoDir (repo s))], world := w'\<rparr>)"
  by (simp add: doGit_def run_def ProcessState_Success_def)

lemma doGit_failed:
  "CombinedOutput E (gitCommand args (RepoDir (repo s))) (world s) = ((out, Some e), w') \<Longrightarrow>
   doGit E args s =
     (([], Some (ErrWrap e (''failed to run command '' @ [CHR 0x27] @ ''git '' @ Join args '' '' @
                   [CHR 0x27] @ '' on repo '' @ Name (repo s) @ '': '' @ out))),
      s\<lparr>issued := issued s @ [gitCommand args (RepoDir (repo s))], world := w'\<rparr>)"
  by (simp add: doGit_def run_def ProcessState_Success_def)

lemma IsClean_fetch_failed:
  assumes "CombinedOutput E (gitCommand [''fetch''] (RepoDir (repo s))) (world s) = ((out0, Some e), w1)"
  shows "IsClean E s = (False, s\<lparr>issued := issued s @ [gitCommand [''fetch''] (RepoDir (repo s))], world := w1\<rparr>)"
  by (simp add: IsClean_def doGit_failed [OF assms])

lemma IsClean_status_failed:
  assumes "CombinedOutput E (gitCommand [''fetch''] (RepoDir (repo s))) (world s) = ((out0, None), w1)"
    and "CombinedOutput E (gitCommand [''status''] (RepoDir (repo s))) w1 = ((out, Some e), w2)"
  shows "IsClean E s =
    (False, s\<lparr>issued := issued s @ [gitCommand [''fetch''] (RepoDir (repo s)), gitCommand [''status''] (RepoDir (repo s))],
              world := w2\<rparr>)"
proof -
  let ?s1 = "s\<lparr>issued := issued s @ [gitCommand [''fetch''] (RepoDir (repo s))], world := w1\<rparr>"
  have f: "doGit E [''fetch''] s = ((out0, None), ?s1)" by (rule doGit_ok [OF assms(1)])
  have "CombinedOutput E (gitCommand [''status''] (RepoDir (repo ?s1))) (world ?s1) = ((out, Some e), w2)"
    using assms(2) by simp
  from doGit_failed [OF this] f show ?thesis by (simp add: IsClean_def)
qed

lemma IsClean_status_ok:
  assumes "CombinedOutput E (gitCommand [''fetch''] (RepoDir (repo s))) (world s) = ((out0, None), w1)"
    and "CombinedOutput E (gitCommand [''status''] (RepoDir (repo s))) w1 = ((out, None), w2)"
  shows "IsClean E s =
    (Contains out ''up-to-date'' \<and> Contains out ''working directory clean'',
     s\<lparr>issued := issued s @ [gitCommand [''fetch''] (RepoDir (repo s)), gitCommand [''status''] (RepoDir (repo s))],
       world := w2\<rparr>)"
proof -
  let ?s1 = "s\<lparr>issued := issued s @ [gitCommand [''fetch''] (RepoDir (repo s))], world := w1\<rparr>"
  have f: "doGit E [''fetch''] s = ((out0, None), ?s1)" by (rule doGit_ok [OF assms(1)])
  have "CombinedOutput E (gitCommand [''status''] (RepoDir (repo ?s1))) (world ?s1) = ((out, None), w2)"
    using assms(2) by simp
  from doGit_ok [OF this] f show ?thesis by (simp add: IsClean_def)
qed

text \<open>
  C5. \<open>IsClean\<close> returns a boolean and nothing else, so no error leaves it. With the
  results of the fetch command and of the status command named, it returns \<open>false\<close> when
  the fetch fails, \<open>false\<close> when the status fails, and \<open>true\<close> exactly when both succeed
  and the status output contains both \<open>up-to-date\<close> and \<open>working directory clean\<close>.
\<close>

theorem IsClean_never_fails:
  assumes "CombinedOutput E (gitCommand [''fetch''] (RepoDir (repo s))) (world s) = ((out0, err0), w1)"
    and "CombinedOutput E (gitCommand [''status''] (RepoDir (repo s))) w1 = ((out, err), w2)"
  shows "(err0 \<noteq> None \<longrightarrow> fst (IsClean E s) = False) \<and>
         (err \<noteq> None \<longrightarrow> fst (IsClean E s) = False) \<and>
         (fst (IsClean E s) = True \<longleftrightarrow>
            err0 = None \<and> err = None \<and>
            (\<exists>pre post. out = pre @ ''up-to-date'' @ post) \<and>
            (\<exists>pre post. out = pre @ ''working directory clean'' @ post))"
proof (cases err0)
  case (Some e)
  with assms(1) show ?thesis by (simp add: IsClean_fetch_failed)
next
  case n0: None
  show ?thesis
  proof (cases err)
    case (Some e)
    with assms n0 show ?thesis by (simp add: IsClean_status_failed)
  next
    case None
    with assms n0 have "fst (IsClean E s) = (Contains out ''up-to-date'' \<and> Contains out ''working directory clean'')"
      by (simp add: IsClean_status_ok)
    with n0 None show ?thesis by (simp add: Contains_iff)
  qed
qed

lemma statusOut_parts:
  "statusOut = (''On branch main'' @ [CHR 0x0A] @ ''Your branch is '') @ ''up-to-date'' @
     ('' with origin/main.'' @ [CHR 0x0A] @ ''nothing to commit, working directory clean'' @ [CHR 0x0A])"
  "statusOut = (''On branch main'' @ [CHR 0x0A] @ ''Your branch is up-to-date with origin/main.'' @ [CHR 0x0A] @
     ''nothing to commit, '') @ ''working directory clean'' @ [CHR 0x0A]"
  by (simp_all add: statusOut_def)

theorem IsClean_never_fails_witness:
  "CombinedOutput cleanEnv (gitCommand [''fetch''] (RepoDir (repo demoState))) (world demoState) = (([], None), ()) \<and>
   CombinedOutput cleanEnv (gitCommand [''status''] (RepoDir (repo demoState))) () = ((statusOut, None), ()) \<and>
   fst (IsClean cleanEnv demoState) = True"
proof -
  have f: "CombinedOutput cleanEnv (gitCommand [''fetch''] (RepoDir (repo demoState))) (world demoState) = (([], None), ())"
    by (simp add: cleanEnv_def CombinedOutput_scripted gitCommand_def)
  have g: "CombinedOutput cleanEnv (gitCommand [''status''] (RepoDir (repo demoState))) () = ((statusOut, None), ())"
    by (simp add: cleanEnv_def CombinedOutput_scripted gitCommand_def)
  have a: "\<exists>pre post. statusOut = pre @ ''up-to-date'' @ post"
    using statusOut_parts(1) by (intro exI)
  have b: "\<exists>pre post. statusOut = pre @ ''working directory clean'' @ post"
    using statusOut_parts(2) by (intro exI)
  have "fst (IsClean cleanEnv demoState) = True"
    using IsClean_never_fails [OF f g] a b by (simp only: simp_thms)
  with f g show ?thesis by (simp only: simp_thms)
qed

section \<open>Clone or pull\<close>













section \<open>The short name\<close>

lemma suffix_in_last_segment:
  assumes eq: "xs @ ys = pre @ seg" and pre: "pre = [] \<or> last pre = c" and c: "c \<notin> set ys"
  shows "\<exists>b. seg = b @ ys"
proof -
  from eq obtain us where "xs = pre @ us \<and> us @ ys = seg \<or> xs @ us = pre \<and> ys = us @ seg"
    by (auto simp: append_eq_append_conv2)
  then show ?thesis
  proof
    assume "xs = pre @ us \<and> us @ ys = seg"
    then show ?thesis by auto
  next
    assume h: "xs @ us = pre \<and> ys = us @ seg"
    show ?thesis
    proof (cases "us = []")
      case True
      with h have "seg = [] @ ys" by simp
      then show ?thesis ..
    next
      case False
      with h have "last pre = last us" by auto
      moreover have "pre \<noteq> []" using h False by auto
      ultimately have "c = last us" using pre by simp
      then have "c \<in> set us" using False by simp
      with h c show ?thesis by auto
    qed
  qed
qed

lemma last_segment:
  "\<exists>pre. url = pre @ last (Split url sep) \<and> (pre = [] \<or> last pre = sep) \<and>
         sep \<notin> set (last (Split url sep))"
proof -
  have "last (Split url sep) \<in> set (Split url sep)"
    using Split_not_Nil by (rule last_in_set)
  then have "sep \<notin> set (last (Split url sep))" by (rule Split_pieces)
  with Split_last [of url sep] show ?thesis by blast
qed

lemma New_repoName_segment:
  "\<exists>pre seg. url = pre @ seg \<and> (pre = [] \<or> last pre = CHR ''/'') \<and> CHR ''/'' \<notin> set seg \<and>
     (if HasSuffix url ''.git'' then seg = New_repoName url @ ''.git'' else New_repoName url = seg)"
proof -
  let ?seg = "last (Split url (CHR ''/''))"
  from last_segment [of url "CHR ''/''"] obtain pre where
    pre: "url = pre @ ?seg" "pre = [] \<or> last pre = CHR ''/''" "CHR ''/'' \<notin> set ?seg"
    by blast
  have suf: "HasSuffix url ''.git'' \<longleftrightarrow> HasSuffix ?seg ''.git''"
  proof
    assume "HasSuffix url ''.git''"
    then obtain b where "b @ ''.git'' = pre @ ?seg" using pre(1) by (auto simp: HasSuffix_iff)
    from suffix_in_last_segment [OF this pre(2)] show "HasSuffix ?seg ''.git''"
      by (simp add: HasSuffix_iff)
  next
    assume "HasSuffix ?seg ''.git''"
    then obtain b where "?seg = b @ ''.git''" by (auto simp: HasSuffix_iff)
    then have "url = (pre @ b) @ ''.git''" using pre(1) by simp
    then show "HasSuffix url ''.git''" unfolding HasSuffix_iff ..
  qed
  have "if HasSuffix url ''.git'' then ?seg = New_repoName url @ ''.git'' else New_repoName url = ?seg"
  proof (cases "HasSuffix ?seg ''.git''")
    case True
    then obtain b where b: "?seg = b @ ''.git''" by (auto simp: HasSuffix_iff)
    have "New_repoName url = take (length ?seg - 4) ?seg"
      using True by (simp add: New_repoName_def Let_def)
    also have "\<dots> = b" by (simp add: b)
    finally show ?thesis using True b suf by simp
  next
    case False
    then show ?thesis using suf by (simp add: New_repoName_def Let_def)
  qed
  with pre show ?thesis by blast
qed

lemma New_returns_handle:
  "New E url branch workDir options w = (Returns (Some r, None), s') \<Longrightarrow> r = repo s'"
  by (auto simp: New_def split: prod.splits option.splits outcome.splits if_splits)

lemma New_Name: "Name (repo (snd (New E url branch workDir options w))) = New_repoName url"
proof -
  have "repo (snd (New E url branch workDir options w)) = New_repo E url workDir options"
    by (rule New_frame) (rule surjective_pairing)
  then show ?thesis by (simp add: New_repo_def Let_def)
qed

text \<open>
  C7. For every URL, the \<open>Name\<close> of the handle that \<open>New\<close> builds (and returns, when it
  succeeds) comes from the last \<open>/\<close>-delimited segment of the URL, the part after the last
  \<open>/\<close> or the whole URL when it has none: when the URL ends in \<open>.git\<close> the name is that
  segment without the suffix, and otherwise it is the segment itself.
\<close>

theorem New_short_name:
  "(\<exists>pre seg. url = pre @ seg \<and> (pre = [] \<or> last pre = CHR ''/'') \<and> CHR ''/'' \<notin> set seg \<and>
      (if HasSuffix url ''.git''
       then seg = Name (repo (snd (New E url branch workDir options w))) @ ''.git''
       else Name (repo (snd (New E url branch workDir options w))) = seg)) \<and>
   (\<forall>r. fst (New E url branch workDir options w) = Returns (Some r, None) \<longrightarrow>
      r = repo (snd (New E url branch workDir options w)))"
proof
  show "\<exists>pre seg. url = pre @ seg \<and> (pre = [] \<or> last pre = CHR ''/'') \<and> CHR ''/'' \<notin> set seg \<and>
      (if HasSuffix url ''.git''
       then seg = Name (repo (snd (New E url branch workDir options w))) @ ''.git''
       else Name (repo (snd (New E url branch workDir options w))) = seg)"
    unfolding New_Name by (rule New_repoName_segment)
  show "\<forall>r. fst (New E url branch workDir options w) = Returns (Some r, None) \<longrightarrow>
      r = repo (snd (New E url branch workDir options w))"
  proof (intro allI impI)
    fix r
    assume "fst (New E url branch workDir options w) = Returns (Some r, None)"
    then have "New E url branch workDir options w =
        (Returns (Some r, None), snd (New E url branch workDir options w))"
      by (metis surjective_pairing)
    then show "r = repo (snd (New E url branch workDir options w))"
      by (rule New_returns_handle)
  qed
qed

lemma New_repoName_examples:
  "New_repoName ''https://example.org/team/project.git'' = ''project''"
  "New_repoName ''git@example.org:team/tool'' = ''tool''"
  "New_repoName ''project.git'' = ''project''"
  "New_repoName ''https://example.org/team/.git'' = []"
  "New_repoName ''https://example.org/team/'' = []"
  "New_repoName [] = []"
  by code_simp+

theorem New_short_name_witness:
  "fst (New demoEnv ''https://example.org/team/project.git'' ''main'' ''/work'' [] ()) =
     Returns (Some demoRepo, None) \<and>
   demoRepo = repo (snd (New demoEnv ''https://example.org/team/project.git'' ''main'' ''/work'' [] ())) \<and>
   Name demoRepo = ''project''"
proof -
  have r: "fst (New demoEnv ''https://example.org/team/project.git'' ''main'' ''/work'' [] ()) =
     Returns (Some demoRepo, None)"
    by code_simp
  have "demoRepo = repo (snd (New demoEnv ''https://example.org/team/project.git'' ''main'' ''/work'' [] ()))"
    using New_short_name [of "''https://example.org/team/project.git''" demoEnv "''main''" "''/work''" "[]" "()",
        THEN conjunct2, rule_format, OF r] .
  moreover have "Name demoRepo = ''project''" by (simp add: demoRepo_def)
  ultimately show ?thesis using r by (simp only: simp_thms)
qed

section \<open>The current branch\<close>

lemma Branch_lines_unmarked:
  "\<forall>l \<in> set lines. \<not> HasPrefix l ''*'' \<Longrightarrow>
   Branch_lines lines = Returns ([], Some (ErrNew ''unexpected output from git command''))"
  by (induction lines) simp_all

lemma Branch_lines_marked:
  "\<forall>l \<in> set before. \<not> HasPrefix l ''*'' \<Longrightarrow> HasPrefix line ''*'' \<Longrightarrow>
   Branch_lines (before @ line # after) =
     (if 2 \<le> length line then Returns (drop 2 line, None) else Panics)"
  by (induction before) simp_all

lemma Branch_lines_scenario:
  "Branch_lines (Split (''  develop'' @ [CHR 0x0A] @ ''* main'' @ [CHR 0x0A] @ ''  feature/x'' @ [CHR 0x0A]) (CHR 0x0A)) =
     Returns (''main'', None)"
  by code_simp

lemma Branch_ok:
  "doGit E [''branch''] s = ((out, None), s') \<Longrightarrow>
   Branch E s = (Branch_lines (Split out (CHR 0x0A)), s')"
  by (simp add: Branch_def)

text \<open>
  C3. When no line of the output begins with \<open>*\<close>, \<open>Branch\<close> returns the error
  \<open>unexpected output from git command\<close> (\<open>Branch_lines_unmarked\<close>); when the first line
  that begins with \<open>*\<close> has at least two bytes, it returns what follows those two bytes
  (\<open>Branch_lines_marked\<close>). When that line is \<open>*\<close> alone it does neither: on the output
  \<open>"*\n"\<close> the slice \<open>line[2:]\<close> is out of range and \<open>Branch\<close> panics.
\<close>

theorem Branch_panics_on_lone_star:
  "Split (''*'' @ [CHR 0x0A]) (CHR 0x0A) = [''*'', []] \<and>
   HasPrefix ''*'' ''*'' \<and>
   Branch_lines (Split (''*'' @ [CHR 0x0A]) (CHR 0x0A)) = Panics \<and>
   Branch starEnv demoState =
     (Panics, demoState\<lparr>issued := [gitCommand [''branch''] ''/work/project'']\<rparr>)"
  by code_simp

section \<open>The file before its deletion\<close>

lemma Index_byte_absent: "c \<notin> set s \<Longrightarrow> Index s [c] = - 1"
  by (induction s) (auto simp: Let_def HasPrefix_def)

lemma after_first_space:
  "CHR '' '' \<notin> set pre \<Longrightarrow> drop (nat (Index (pre @ '' '' @ post) '' '' + 1)) (pre @ '' '' @ post) = post"
  using Index_byte_first [of "CHR '' ''" pre post] by (simp add: nat_add_distrib)

lemma no_space_whole_line:
  "CHR '' '' \<notin> set line \<Longrightarrow> drop (nat (Index line '' '' + 1)) line = line"
  by (simp add: Index_byte_absent)

lemma ShowDeletedFile_lines_one_seen:
  "filter (\<lambda>l. HasPrefix l ''commit'') lines = l2 # rest \<Longrightarrow>
   ShowDeletedFile_lines lines 1 = drop (nat (Index l2 '' '' + 1)) l2"
  by (induction lines) (auto split: if_splits)

lemma ShowDeletedFile_lines_second:
  "filter (\<lambda>l. HasPrefix l ''commit'') lines = l1 # l2 # rest \<Longrightarrow>
   ShowDeletedFile_lines lines 0 = drop (nat (Index l2 '' '' + 1)) l2"
  by (induction lines) (auto split: if_splits simp: ShowDeletedFile_lines_one_seen)

lemma ShowDeletedFile_lines_none_left:
  "filter (\<lambda>l. HasPrefix l ''commit'') lines = [] \<Longrightarrow> ShowDeletedFile_lines lines k = []"
  by (induction lines arbitrary: k) (auto split: if_splits)

lemma ShowDeletedFile_lines_too_short:
  "length (filter (\<lambda>l. HasPrefix l ''commit'') lines) < 2 \<Longrightarrow> ShowDeletedFile_lines lines 0 = []"
  by (induction lines) (auto split: if_splits simp: ShowDeletedFile_lines_none_left)

text \<open>
  C2, amended. Whenever the history command succeeds and at least two lines of its output
  begin with \<open>commit\<close>, \<open>ShowDeletedFile\<close> takes its commit identifier from the second such
  line and returns what \<open>ShowForCommit\<close> returns for that identifier and the path, that is
  the result of \<open>git show identifier:path\<close>. The identifier is what follows the first space
  of the line when the line has a space, and the whole line when it has none.
\<close>

theorem ShowDeletedFile_second_commit:
  assumes "doGit E [''log'', ''--full-history'', ''-2'', ''--'', path] s = ((out, None), s')"
    and "filter (\<lambda>l. HasPrefix l ''commit'') (Split out (CHR 0x0A)) = l1 # l2 # rest"
  shows "\<exists>commit. ShowDeletedFile E path s = ShowForCommit E commit path s' \<and>
           ShowForCommit E commit path s' = doGit E [''show'', commit @ '':'' @ path] s' \<and>
           (\<forall>pre post. l2 = pre @ '' '' @ post \<and> CHR '' '' \<notin> set pre \<longrightarrow> commit = post) \<and>
           (CHR '' '' \<notin> set l2 \<longrightarrow> commit = l2)"
proof -
  let ?commit = "drop (nat (Index l2 '' '' + 1)) l2"
  have "ShowDeletedFile E path s = ShowForCommit E ?commit path s'"
    using assms by (simp add: ShowDeletedFile_def ShowDeletedFile_lines_second)
  moreover have "ShowForCommit E ?commit path s' = doGit E [''show'', ?commit @ '':'' @ path] s'"
    by (simp add: ShowForCommit_def)
  moreover have "\<forall>pre post. l2 = pre @ '' '' @ post \<and> CHR '' '' \<notin> set pre \<longrightarrow> ?commit = post"
    using after_first_space by blast
  moreover have "CHR '' '' \<notin> set l2 \<longrightarrow> ?commit = l2"
    using no_space_whole_line by blast
  ultimately show ?thesis by blast
qed

theorem ShowDeletedFile_second_commit_witness:
  "doGit logEnv [''log'', ''--full-history'', ''-2'', ''--'', ''gone.txt''] demoState =
     ((logOut, None),
      demoState\<lparr>issued := [gitCommand [''log'', ''--full-history'', ''-2'', ''--'', ''gone.txt''] ''/work/project'']\<rparr>) \<and>
   filter (\<lambda>l. HasPrefix l ''commit'') (Split logOut (CHR 0x0A)) = [''commit abc123'', ''commit def456''] \<and>
   ShowDeletedFile logEnv ''gone.txt'' demoState =
     ShowForCommit logEnv ''def456'' ''gone.txt''
       (demoState\<lparr>issued := [gitCommand [''log'', ''--full-history'', ''-2'', ''--'', ''gone.txt''] ''/work/project'']\<rparr>)"
proof -
  let ?s1 = "demoState\<lparr>issued := [gitCommand [''log'', ''--full-history'', ''-2'', ''--'', ''gone.txt''] ''/work/project'']\<rparr>"
  have h1: "doGit logEnv [''log'', ''--full-history'', ''-2'', ''--'', ''gone.txt''] demoState = ((logOut, None), ?s1)"
    by (simp add: logEnv_def doGit_scripted_ok demoState_def demoRepo_def gitCommand_def)
  have h2: "filter (\<lambda>l. HasPrefix l ''commit'') (Split logOut (CHR 0x0A)) = [''commit abc123'', ''commit def456'']"
    by code_simp
  from ShowDeletedFile_second_commit [OF h1 h2] obtain commit where
    a: "ShowDeletedFile logEnv ''gone.txt'' demoState = ShowForCommit logEnv commit ''gone.txt'' ?s1"
    and b: "\<forall>pre post. ''commit def456'' = pre @ '' '' @ post \<and> CHR '' '' \<notin> set pre \<longrightarrow> commit = post"
    by (elim exE conjE)
  have "commit = ''def456''"
    using b [rule_format, of "''commit''" "''def456''"] by simp
  with a h1 h2 show ?thesis by (simp only: simp_thms)
qed

text \<open>
  The claim as it is written, with the identifier always the text after the first space,
  fails on an output whose second line beginning with \<open>commit\<close> has no space: there is
  no such text, and the command issued is \<open>git show committer:gone.txt\<close>.
\<close>

theorem ShowDeletedFile_line_without_space:
  "Split oddLogOut (CHR 0x0A) = [''commit abc123'', ''committer'', ''commit def456'', []] \<and>
   HasPrefix ''commit abc123'' ''commit'' \<and> HasPrefix ''committer'' ''commit'' \<and>
   CHR '' '' \<notin> set ''committer'' \<and>
   ShowDeletedFile_lines (Split oddLogOut (CHR 0x0A)) 0 = ''committer'' \<and>
   issued (snd (ShowDeletedFile oddLogEnv ''gone.txt'' demoState)) =
     [gitCommand [''log'', ''--full-history'', ''-2'', ''--'', ''gone.txt''] ''/work/project'',
      gitCommand [''show'', ''committer:gone.txt''] ''/work/project'']"
  by code_simp

section \<open>A URL without segments\<close>







end
